theory Spec2Isabelle
  imports Complex_Main
begin

section \<open>JavaScript values used by the snippets\<close>

text \<open>
  \<^verbatim>\<open>s[i]\<close> on a JavaScript string is the one-character string at position \<open>i\<close>
  when \<open>0 \<le> i < s.length\<close> and \<^verbatim>\<open>undefined\<close> otherwise; \<open>None\<close> stands
  for \<^verbatim>\<open>undefined\<close>.
\<close>

definition js_index :: "string \<Rightarrow> int \<Rightarrow> string option" where
  "js_index s i = (if 0 \<le> i \<and> i < int (length s) then Some [s ! nat i] else None)"

text \<open>
  \<^verbatim>\<open>token += x\<close> on a string: \<^verbatim>\<open>undefined\<close> is converted to the text
  \<^verbatim>\<open>undefined\<close> before it is appended.
\<close>

definition js_concat :: "string \<Rightarrow> string option \<Rightarrow> string" where
  "js_concat t x = t @ (case x of Some c \<Rightarrow> c | None \<Rightarrow> ''undefined'')"

section \<open>Numbers\<close>

text \<open>
  A JavaScript number is a binary64 floating-point value. The finite ones are rational
  numbers, and an arithmetic operation returns the exact result rounded to the nearest
  double, ties to the even significand. A positive double of the binade \<open>[2^e, 2^(e+1))\<close>
  is a multiple of \<open>2^(e-52)\<close>; the exponent of a normal number lies between -1022
  and 1023, below \<open>2^-1022\<close> lie the subnormal numbers, all multiples of \<open>2^-1074\<close>.
  A result of magnitude \<open>2^1024\<close> or more stands for an infinity.
\<close>

function exponent_up :: "int \<Rightarrow> rat \<Rightarrow> int" where
  "exponent_up e x = (if 1023 \<le> e \<or> x < 2 powi (e + 1) then e else exponent_up (e + 1) x)"
  by pat_completeness auto
termination
  by (relation "measure (\<lambda>(e, x). nat (1023 - e))") auto

function exponent_down :: "int \<Rightarrow> rat \<Rightarrow> int" where
  "exponent_down e x = (if e \<le> - 1022 \<or> 2 powi e \<le> x then e else exponent_down (e - 1) x)"
  by pat_completeness auto
termination
  by (relation "measure (\<lambda>(e, x). nat (e + 1022))") auto

declare exponent_up.simps [simp del]

declare exponent_down.simps [simp del]

text \<open>The exponent of the binade of a positive number.\<close>

definition exponent :: "rat \<Rightarrow> int" where
  "exponent x = (if 1 \<le> x then exponent_up 0 x else exponent_down (- 1) x)"

text \<open>The nearest integer, the even one of two that are equally near.\<close>

definition round_even :: "rat \<Rightarrow> int" where
  "round_even q =
     (if q - of_int \<lfloor>q\<rfloor> < 1 / 2 then \<lfloor>q\<rfloor>
      else if 1 / 2 < q - of_int \<lfloor>q\<rfloor> then \<lfloor>q\<rfloor> + 1
      else if even \<lfloor>q\<rfloor> then \<lfloor>q\<rfloor> else \<lfloor>q\<rfloor> + 1)"

text \<open>The distance between the doubles around \<open>x\<close>.\<close>

definition ulp :: "rat \<Rightarrow> rat" where
  "ulp x = 2 powi (exponent \<bar>x\<bar> - 52)"

definition round_double :: "rat \<Rightarrow> rat" where
  "round_double x =
     (if x = 0 then 0 else sgn x * (of_int (round_even (\<bar>x\<bar> / ulp x)) * ulp x))"

text \<open>The finite doubles: the numbers that rounding leaves as they are.\<close>

definition double :: "rat \<Rightarrow> bool" where
  "double x \<longleftrightarrow> round_double x = x \<and> \<bar>x\<bar> < 2 ^ 1024"

text \<open>\<^verbatim>\<open>x * y\<close>, \<^verbatim>\<open>x + y\<close> and \<^verbatim>\<open>x - y\<close> on numbers.\<close>

definition js_times :: "rat \<Rightarrow> rat \<Rightarrow> rat" where
  "js_times x y = round_double (x * y)"

definition js_plus :: "rat \<Rightarrow> rat \<Rightarrow> rat" where
  "js_plus x y = round_double (x + y)"

definition js_minus :: "rat \<Rightarrow> rat \<Rightarrow> rat" where
  "js_minus x y = round_double (x - y)"

section \<open>generateToken (README.md 360-367, NODEJS-README.md 354-361)\<close>

text \<open>
  The two snippets differ only in the name of the alphabet constant (\<^verbatim>\<open>options\<close> in
  README.md, \<^verbatim>\<open>chars\<close> in NODEJS-README.md). \<^verbatim>\<open>Math.random()\<close> is the only outside
  input: \<open>rnd k\<close> is the number its \<open>k\<close>-th call returns.
\<close>

definition options :: string where
  "options = ''abcdefghijklmnopqrstuvwxyzABCDEFGHIJKLMNOPQRSTUVWXYZ0123456789''"

text \<open>\<^verbatim>\<open>Math.floor(Math.random() * options.length)\<close> in iteration \<open>i\<close>.\<close>

definition random_index :: "(nat \<Rightarrow> rat) \<Rightarrow> nat \<Rightarrow> int" where
  "random_index rnd i = \<lfloor>js_times (rnd i) (of_nat (length options))\<rfloor>"

text \<open>\<^verbatim>\<open>for (let i = 0; i < 32; i++) { token += options[...]; }\<close>\<close>

function token_loop :: "(nat \<Rightarrow> rat) \<Rightarrow> nat \<Rightarrow> string \<Rightarrow> string" where
  "token_loop rnd i token =
     (if i < 32
      then token_loop rnd (Suc i) (js_concat token (js_index options (random_index rnd i)))
      else token)"
  by pat_completeness auto
termination
  by (relation "measure (\<lambda>(rnd, i, token). 32 - i)") auto

declare token_loop.simps [simp del]

definition generateToken :: "(nat \<Rightarrow> rat) \<Rightarrow> string" where
  "generateToken rnd = token_loop rnd 0 ''''"

section \<open>ErrorBoundary (28\_ReactAdvancedPatterns/errorBoundary.jsx 5-39)\<close>

text \<open>The component's state object \<^verbatim>\<open>{ hasError }\<close>.\<close>

record boundary_state =
  hasError :: bool

text \<open>
  What \<^verbatim>\<open>render\<close> returns: the fallback \<^verbatim>\<open><div><h2>Something went wrong.</h2></div>\<close>
  or \<^verbatim>\<open>this.props.children\<close>.
\<close>

datatype 'c rendered = Fallback string | Children 'c

definition constructor :: boundary_state where
  "constructor = \<lparr>hasError = False\<rparr>"

definition getDerivedStateFromError :: "'e \<Rightarrow> boundary_state" where
  "getDerivedStateFromError error = \<lparr>hasError = True\<rparr>"

text \<open>\<^verbatim>\<open>componentDidCatch\<close> only writes to the console; the log is the list of lines.\<close>

definition componentDidCatch :: "'e \<Rightarrow> 'i \<Rightarrow> (string \<times> 'e \<times> 'i) list \<Rightarrow> (string \<times> 'e \<times> 'i) list" where
  "componentDidCatch error info console = console @ [(''Error caught:'', error, info)]"

definition render :: "boundary_state \<Rightarrow> 'c \<Rightarrow> 'c rendered" where
  "render state children =
     (if hasError state then Fallback ''Something went wrong.'' else Children children)"

text \<open>
  The operations React performs on a mounted boundary: a child throws (React merges the
  result of \<^verbatim>\<open>getDerivedStateFromError\<close> into the state, then calls
  \<^verbatim>\<open>componentDidCatch\<close>), or the boundary is rendered again. The state of the
  instance is the pair of its state object and the console.
\<close>

datatype ('e, 'i) boundary_event = ChildThrew 'e 'i | Rerender

fun boundary_step ::
  "boundary_state \<times> (string \<times> 'e \<times> 'i) list \<Rightarrow> ('e, 'i) boundary_event \<Rightarrow>
   boundary_state \<times> (string \<times> 'e \<times> 'i) list" where
  "boundary_step (state, console) (ChildThrew error info) =
     (state\<lparr>hasError := hasError (getDerivedStateFromError error)\<rparr>,
      componentDidCatch error info console)"
| "boundary_step (state, console) Rerender = (state, console)"

definition boundary_run ::
  "boundary_state \<times> (string \<times> 'e \<times> 'i) list \<Rightarrow> ('e, 'i) boundary_event list \<Rightarrow>
   boundary_state \<times> (string \<times> 'e \<times> 'i) list" where
  "boundary_run s evs = foldl boundary_step s evs"

section \<open>Authentication snippets\<close>

text \<open>
  A stored user: the object \<^verbatim>\<open>{ username, password }\<close> pushed by \<^verbatim>\<open>/signup\<close>, to
  which \<^verbatim>\<open>/signin\<close> later adds \<^verbatim>\<open>token\<close> (\<open>None\<close>: the property is absent, so
  reading it gives \<^verbatim>\<open>undefined\<close>). The MongoDB snippets store documents with the
  same two fields, \<^verbatim>\<open>password\<close> holding the bcrypt hash. Request bodies carry JSON
  strings in both fields.
\<close>

record user =
  username :: string
  password :: string
  token :: "string option"

text \<open>
  A response: the HTTP status (200 unless \<^verbatim>\<open>res.status\<close> sets it) and the JSON object
  sent, as its list of key and value.
\<close>

record response =
  status :: nat
  body :: "(string \<times> string) list"

text \<open>
  The state of a process that runs an in-memory snippet: the array \<^verbatim>\<open>users\<close> and the
  number of calls of \<^verbatim>\<open>Math.random()\<close> made so far.
\<close>

record server =
  users :: "user list"
  random_calls :: nat

definition boot :: server where
  "boot = \<lparr>users = [], random_calls = 0\<rparr>"

text \<open>
  \<^verbatim>\<open>foundUser.token = token\<close>: \<^verbatim>\<open>foundUser\<close> is the first element of the array that
  satisfies the predicate of \<^verbatim>\<open>users.find\<close>, and the assignment changes it in place.
\<close>

fun assign_token :: "(user \<Rightarrow> bool) \<Rightarrow> string \<Rightarrow> user list \<Rightarrow> user list" where
  "assign_token P t [] = []"
| "assign_token P t (u # us) =
     (if P u then u\<lparr>token := Some t\<rparr> # us else u # assign_token P t us)"

subsection \<open>Token-based authentication, README.md 370-405\<close>

definition signup_readme :: "string \<Rightarrow> string \<Rightarrow> server \<Rightarrow> response \<times> server" where
  "signup_readme uname pw st =
     (\<lparr>status = 200, body = [(''message'', ''You have signed up'')]\<rparr>,
      st\<lparr>users := users st @ [\<lparr>username = uname, password = pw, token = None\<rparr>]\<rparr>)"

definition signin_readme ::
  "(nat \<Rightarrow> rat) \<Rightarrow> string \<Rightarrow> string \<Rightarrow> server \<Rightarrow> response \<times> server" where
  "signin_readme rnd uname pw st =
     (case find (\<lambda>u. username u = uname \<and> password u = pw) (users st) of
        Some foundUser \<Rightarrow>
          (let t = generateToken (\<lambda>i. rnd (random_calls st + i))
           in (\<lparr>status = 200, body = [(''token'', t)]\<rparr>,
               \<lparr>users = assign_token (\<lambda>u. username u = uname \<and> password u = pw) t (users st),
                random_calls = random_calls st + 32\<rparr>))
      | None \<Rightarrow> (\<lparr>status = 403, body = [(''message'', ''Invalid credentials'')]\<rparr>, st))"

text \<open>
  \<^verbatim>\<open>req.headers.token\<close> is \<open>None\<close> when the header is absent; \<^verbatim>\<open>===\<close> then holds
  against a user that has no token yet.
\<close>

definition me_readme :: "string option \<Rightarrow> server \<Rightarrow> response \<times> server" where
  "me_readme hdr st =
     (case find (\<lambda>u. token u = hdr) (users st) of
        Some foundUser \<Rightarrow> (\<lparr>status = 200, body = [(''username'', username foundUser)]\<rparr>, st)
      | None \<Rightarrow> (\<lparr>status = 200, body = [(''message'', ''Token Invalid'')]\<rparr>, st))"

subsection \<open>Token-based authentication, NODEJS-README.md 364-394\<close>

definition signup_nodejs :: "string \<Rightarrow> string \<Rightarrow> server \<Rightarrow> response \<times> server" where
  "signup_nodejs uname pw st =
     (\<lparr>status = 200, body = [(''message'', ''User created'')]\<rparr>,
      st\<lparr>users := users st @ [\<lparr>username = uname, password = pw, token = None\<rparr>]\<rparr>)"

definition signin_nodejs ::
  "(nat \<Rightarrow> rat) \<Rightarrow> string \<Rightarrow> string \<Rightarrow> server \<Rightarrow> response \<times> server" where
  "signin_nodejs rnd uname pw st =
     (case find (\<lambda>u. username u = uname \<and> password u = pw) (users st) of
        Some user \<Rightarrow>
          (let t = generateToken (\<lambda>i. rnd (random_calls st + i))
           in (\<lparr>status = 200, body = [(''token'', t)]\<rparr>,
               \<lparr>users = assign_token (\<lambda>u. username u = uname \<and> password u = pw) t (users st),
                random_calls = random_calls st + 32\<rparr>))
      | None \<Rightarrow> (\<lparr>status = 403, body = [(''message'', ''Invalid credentials'')]\<rparr>, st))"

definition me_nodejs :: "string option \<Rightarrow> server \<Rightarrow> response \<times> server" where
  "me_nodejs hdr st =
     (case find (\<lambda>u. token u = hdr) (users st) of
        Some user \<Rightarrow> (\<lparr>status = 200, body = [(''username'', username user)]\<rparr>, st)
      | None \<Rightarrow> (\<lparr>status = 401, body = [(''message'', ''Unauthorized'')]\<rparr>, st))"

subsection \<open>The other /signin handlers\<close>

text \<open>
  \<^verbatim>\<open>jwt.sign\<close>, \<^verbatim>\<open>bcrypt.hash\<close> and \<^verbatim>\<open>bcrypt.compare\<close> belong to third-party
  packages: the handlers take them as the parameters \<open>sign\<close> (payload's username and
  secret to token), \<open>hash\<close> and \<open>compare\<close> (password and stored hash to verdict).
  A MongoDB collection is the list of its documents in natural order, and
  \<^verbatim>\<open>User.findOne({ username })\<close> is the first document with that username.
\<close>

text \<open>README.md 445-458 and NODEJS-README.md 443-453 (JWT over the in-memory array).\<close>

definition signin_jwt ::
  "(string \<Rightarrow> string \<Rightarrow> string) \<Rightarrow> string \<Rightarrow> string \<Rightarrow> user list \<Rightarrow> response" where
  "signin_jwt sign uname pw us =
     (case find (\<lambda>u. username u = uname \<and> password u = pw) us of
        Some user \<Rightarrow> \<lparr>status = 200, body = [(''token'', sign uname ''your-secret-key'')]\<rparr>
      | None \<Rightarrow> \<lparr>status = 403, body = [(''message'', ''Invalid credentials'')]\<rparr>)"

text \<open>README.md 603-620 and MONGODB-README.md 390-406.\<close>

definition signin_bcrypt ::
  "(string \<Rightarrow> string \<Rightarrow> bool) \<Rightarrow> (string \<Rightarrow> string \<Rightarrow> string) \<Rightarrow>
   string \<Rightarrow> string \<Rightarrow> user list \<Rightarrow> response" where
  "signin_bcrypt compare sign uname pw db =
     (case find (\<lambda>u. username u = uname) db of
        None \<Rightarrow> \<lparr>status = 403, body = [(''message'', ''User not found'')]\<rparr>
      | Some user \<Rightarrow>
          (if compare pw (password user)
           then \<lparr>status = 200, body = [(''token'', sign uname ''your-secret-key'')]\<rparr>
           else \<lparr>status = 403, body = [(''message'', ''Invalid password'')]\<rparr>))"

text \<open>
  README.md 668-684 (secret \<^verbatim>\<open>'secret-key'\<close>) and MONGODB-README.md 280-296
  (secret \<^verbatim>\<open>JWT_SECRET\<close>): the secret is the parameter \<open>secret\<close>.
\<close>

definition signin_mongo_jwt ::
  "(string \<Rightarrow> string \<Rightarrow> bool) \<Rightarrow> (string \<Rightarrow> string \<Rightarrow> string) \<Rightarrow> string \<Rightarrow>
   string \<Rightarrow> string \<Rightarrow> user list \<Rightarrow> response" where
  "signin_mongo_jwt compare sign secret uname pw db =
     (case find (\<lambda>u. username u = uname) db of
        None \<Rightarrow> \<lparr>status = 403, body = [(''message'', ''Invalid credentials'')]\<rparr>
      | Some user \<Rightarrow>
          (if compare pw (password user)
           then \<lparr>status = 200, body = [(''token'', sign uname secret)]\<rparr>
           else \<lparr>status = 403, body = [(''message'', ''Invalid credentials'')]\<rparr>))"

text \<open>MONGODB-README.md 247-262.\<close>

definition signin_mongo ::
  "(string \<Rightarrow> string \<Rightarrow> bool) \<Rightarrow> string \<Rightarrow> string \<Rightarrow> user list \<Rightarrow> response" where
  "signin_mongo compare uname pw db =
     (case find (\<lambda>u. username u = uname) db of
        None \<Rightarrow> \<lparr>status = 403, body = [(''message'', ''Invalid credentials'')]\<rparr>
      | Some user \<Rightarrow>
          (if compare pw (password user)
           then \<lparr>status = 200, body = [(''message'', ''Login successful'')]\<rparr>
           else \<lparr>status = 403, body = [(''message'', ''Invalid credentials'')]\<rparr>))"

text \<open>README.md 1982-1992: the two early returns, then the token.\<close>

definition signin_problem1 ::
  "(string \<Rightarrow> string \<Rightarrow> bool) \<Rightarrow> (string \<Rightarrow> string \<Rightarrow> string) \<Rightarrow>
   string \<Rightarrow> string \<Rightarrow> user list \<Rightarrow> response" where
  "signin_problem1 compare sign uname pw db =
     (case find (\<lambda>u. username u = uname) db of
        None \<Rightarrow> \<lparr>status = 403, body = [(''error'', ''Invalid'')]\<rparr>
      | Some user \<Rightarrow>
          (if \<not> compare pw (password user)
           then \<lparr>status = 403, body = [(''error'', ''Invalid'')]\<rparr>
           else \<lparr>status = 200, body = [(''token'', sign uname ''secret'')]\<rparr>))"

text \<open>
  The MongoDB \<^verbatim>\<open>/signup\<close> handlers (README.md 657-665, 1974-1980, MONGODB-README.md
  236-244): hash, then \<^verbatim>\<open>user.save()\<close> appends the document; \<open>msg\<close> is the message
  each snippet answers with.
\<close>

definition signup_mongo ::
  "(string \<Rightarrow> string) \<Rightarrow> string \<Rightarrow> string \<Rightarrow> string \<Rightarrow> user list \<Rightarrow> response \<times> user list" where
  "signup_mongo hash msg uname pw db =
     (\<lparr>status = 200, body = [(''message'', msg)]\<rparr>,
      db @ [\<lparr>username = uname, password = hash pw, token = None\<rparr>])"

text \<open>What the claims call a stored user that the submitted pair matches.\<close>

definition matches_plain :: "string \<Rightarrow> string \<Rightarrow> user \<Rightarrow> bool" where
  "matches_plain uname pw u \<longleftrightarrow> username u = uname \<and> password u = pw"

definition matches_hashed :: "(string \<Rightarrow> string \<Rightarrow> bool) \<Rightarrow> string \<Rightarrow> string \<Rightarrow> user \<Rightarrow> bool" where
  "matches_hashed compare uname pw u \<longleftrightarrow> username u = uname \<and> compare pw (password u)"

text \<open>
  What the handlers over MongoDB decide on: the document \<^verbatim>\<open>findOne\<close> returns, and
  \<^verbatim>\<open>bcrypt.compare\<close> against its hash.
\<close>

definition first_user_valid ::
  "(string \<Rightarrow> string \<Rightarrow> bool) \<Rightarrow> string \<Rightarrow> string \<Rightarrow> user list \<Rightarrow> bool" where
  "first_user_valid compare uname pw db =
     (case find (\<lambda>u. username u = uname) db of
        None \<Rightarrow> False
      | Some user \<Rightarrow> compare pw (password user))"

text \<open>The bodies a failed sign-in is answered with, and those of a successful one.\<close>

definition invalid_body :: "(string \<times> string) list \<Rightarrow> bool" where
  "invalid_body b \<longleftrightarrow>
     b = [(''message'', ''Invalid credentials'')] \<or> b = [(''message'', ''User not found'')] \<or>
     b = [(''message'', ''Invalid password'')] \<or> b = [(''error'', ''Invalid'')]"

definition success_body :: "(string \<times> string) list \<Rightarrow> bool" where
  "success_body b \<longleftrightarrow>
     map fst b = [''token''] \<or> b = [(''message'', ''Login successful'')]"

definition rejected :: "response \<Rightarrow> bool" where
  "rejected r \<longleftrightarrow> status r = 403 \<and> invalid_body (body r)"

definition accepted :: "response \<Rightarrow> bool" where
  "accepted r \<longleftrightarrow> status r = 200 \<and> success_body (body r)"

text \<open>
  A stand-in for bcrypt, used only to evaluate the handlers on concrete stores: the
  hash of a password is the password behind a fixed prefix.
\<close>

definition demo_hash :: "string \<Rightarrow> string" where
  "demo_hash pw = ''$2b$10$'' @ pw"

definition demo_compare :: "string \<Rightarrow> string \<Rightarrow> bool" where
  "demo_compare pw h \<longleftrightarrow> h = demo_hash pw"

subsection \<open>Serving a sequence of requests\<close>

datatype request = PostSignup string string | PostSignin string string | GetMe "string option"

fun handle_readme :: "(nat \<Rightarrow> rat) \<Rightarrow> request \<Rightarrow> server \<Rightarrow> response \<times> server" where
  "handle_readme rnd (PostSignup uname pw) st = signup_readme uname pw st"
| "handle_readme rnd (PostSignin uname pw) st = signin_readme rnd uname pw st"
| "handle_readme rnd (GetMe hdr) st = me_readme hdr st"

fun handle_nodejs :: "(nat \<Rightarrow> rat) \<Rightarrow> request \<Rightarrow> server \<Rightarrow> response \<times> server" where
  "handle_nodejs rnd (PostSignup uname pw) st = signup_nodejs uname pw st"
| "handle_nodejs rnd (PostSignin uname pw) st = signin_nodejs rnd uname pw st"
| "handle_nodejs rnd (GetMe hdr) st = me_nodejs hdr st"

text \<open>The requests are handled one after the other, each on the state the last one left.\<close>

fun serve_all ::
  "(request \<Rightarrow> 's \<Rightarrow> response \<times> 's) \<Rightarrow> request list \<Rightarrow> 's \<Rightarrow> response list \<times> 's" where
  "serve_all h [] st = ([], st)"
| "serve_all h (q # qs) st =
     (case h q st of (r, st') \<Rightarrow> (case serve_all h qs st' of (rs, st'') \<Rightarrow> (r # rs, st'')))"

text \<open>The same run, request by request: the request, the state it met, the response.\<close>

fun trace ::
  "(request \<Rightarrow> 's \<Rightarrow> response \<times> 's) \<Rightarrow> request list \<Rightarrow> 's \<Rightarrow> (request \<times> 's \<times> response) list" where
  "trace h [] st = []"
| "trace h (q # qs) st = (q, st, fst (h q st)) # trace h qs (snd (h q st))"

text \<open>
  How the answers \<open>r\<close> of README.md and \<open>r'\<close> of NODEJS-README.md to one request
  compare, when the request meets the store \<open>st\<close>: the sign-up acknowledgements are
  these two, the answers to \<^verbatim>\<open>/signin\<close> are equal, and so are the answers to
  \<^verbatim>\<open>/me\<close> when the token is that of a stored user. Nothing is said of \<^verbatim>\<open>/me\<close>
  with a token that no stored user has.
\<close>

fun answers_agree :: "request \<Rightarrow> server \<Rightarrow> response \<Rightarrow> response \<Rightarrow> bool" where
  "answers_agree (PostSignup uname pw) st r r' \<longleftrightarrow>
     r = \<lparr>status = 200, body = [(''message'', ''You have signed up'')]\<rparr> \<and>
     r' = \<lparr>status = 200, body = [(''message'', ''User created'')]\<rparr>"
| "answers_agree (PostSignin uname pw) st r r' \<longleftrightarrow> r = r'"
| "answers_agree (GetMe hdr) st r r' \<longleftrightarrow>
     (case find (\<lambda>u. token u = hdr) (users st) of None \<Rightarrow> True | Some u \<Rightarrow> r = r')"

fun same_step ::
  "request \<times> server \<times> response \<Rightarrow> request \<times> server \<times> response \<Rightarrow> bool" where
  "same_step (q, st, r) (q', st', r') \<longleftrightarrow> q = q' \<and> st = st' \<and> answers_agree q st r r'"

subsection \<open>The examples as processes beside a MongoDB server\<close>














section \<open>The counter in three state-management styles\<close>

text \<open>
  What a render produces, as far as the counters go: the numbers shown, and the buttons.
  \<open>Button l v\<close> is a button labelled \<open>l\<close> whose handler is
  \<^verbatim>\<open>() => setCount(v)\<close>: the arrow functions \<^verbatim>\<open>() => setCount(count - 1)\<close> and
  \<^verbatim>\<open>() => setCount(count + 1)\<close> capture the \<^verbatim>\<open>count\<close> of the render that created
  them. The count is a number, and \<^verbatim>\<open>count - 1\<close> and \<^verbatim>\<open>count + 1\<close> are rounded.
\<close>

datatype vnode = Text rat | Button string rat | Div "vnode list" | Fragment "vnode list"

fun texts :: "vnode \<Rightarrow> rat list" where
  "texts (Text n) = [n]"
| "texts (Button l v) = []"
| "texts (Div cs) = concat (map texts cs)"
| "texts (Fragment cs) = concat (map texts cs)"

fun buttons :: "vnode \<Rightarrow> (string \<times> rat) list" where
  "buttons (Text n) = []"
| "buttons (Button l v) = [(l, v)]"
| "buttons (Div cs) = concat (map buttons cs)"
| "buttons (Fragment cs) = concat (map buttons cs)"

text \<open>Clicking the button labelled \<open>l\<close>: the value its handler passes to \<^verbatim>\<open>setCount\<close>.\<close>

definition press :: "string \<Rightarrow> vnode \<Rightarrow> rat option" where
  "press l tree = map_of (buttons tree) l"

datatype click = Decrement | Increment

subsection \<open>Prop drilling (unnamed/part\_000)\<close>

definition Buttons_prop :: "rat \<Rightarrow> vnode" where
  "Buttons_prop count =
     Fragment [Button ''desc'' (js_minus count 1), Button ''inc'' (js_plus count 1)]"

definition Count_prop :: "rat \<Rightarrow> vnode" where
  "Count_prop count = Div [Text count, Buttons_prop count]"

definition App_prop :: "rat \<Rightarrow> vnode" where
  "App_prop count = Div [Count_prop count]"

fun label_prop :: "click \<Rightarrow> string" where
  "label_prop Decrement = ''desc''"
| "label_prop Increment = ''inc''"

text \<open>\<^verbatim>\<open>useState(0)\<close> holds the count; a click sets it and React renders again.\<close>

definition click_prop :: "rat \<Rightarrow> click \<Rightarrow> rat" where
  "click_prop count c = (case press (label_prop c) (App_prop count) of Some v \<Rightarrow> v | None \<Rightarrow> count)"

definition run_prop :: "click list \<Rightarrow> rat" where
  "run_prop cs = foldl click_prop 0 cs"

subsection \<open>Context API (24\_Context/vite-project/src/App.jsx)\<close>

text \<open>The value of the provider, \<^verbatim>\<open>{count, setCount}\<close>; the setter is React's.\<close>

record context_value =
  count :: rat

definition CountReader_context :: "context_value \<Rightarrow> vnode" where
  "CountReader_context ctx = Div [Text (count ctx)]"

definition Buttons_context :: "context_value \<Rightarrow> vnode" where
  "Buttons_context ctx =
     Fragment [Button ''desc'' (js_minus (count ctx) 1), Button ''inc'' (js_plus (count ctx) 1)]"

definition Count_context :: "context_value \<Rightarrow> vnode" where
  "Count_context ctx = Div [CountReader_context ctx, Buttons_context ctx]"

definition App_context :: "rat \<Rightarrow> vnode" where
  "App_context c = Div [Count_context \<lparr>count = c\<rparr>]"

fun label_context :: "click \<Rightarrow> string" where
  "label_context Decrement = ''desc''"
| "label_context Increment = ''inc''"

definition click_context :: "rat \<Rightarrow> click \<Rightarrow> rat" where
  "click_context c k = (case press (label_context k) (App_context c) of Some v \<Rightarrow> v | None \<Rightarrow> c)"

definition run_context :: "click list \<Rightarrow> rat" where
  "run_context cs = foldl click_context 0 cs"

subsection \<open>Recoil (25\_Recoil/vite-project/src/App.jsx)\<close>

text \<open>
  An atom has a key and a default; the store of a \<^verbatim>\<open>RecoilRoot\<close> maps the keys of
  the atoms that have been set to their values. \<^verbatim>\<open>countAtom\<close> is imported from
  \<^verbatim>\<open>./store/atom/count.jsx\<close>, which is not among the sources: the atom is a
  parameter of the model.
\<close>

record atom =
  key :: string
  default :: rat

definition useRecoilValue :: "(string \<rightharpoonup> rat) \<Rightarrow> atom \<Rightarrow> rat" where
  "useRecoilValue store a = (case store (key a) of Some v \<Rightarrow> v | None \<Rightarrow> default a)"

definition CountReader_recoil :: "(string \<rightharpoonup> rat) \<Rightarrow> atom \<Rightarrow> vnode" where
  "CountReader_recoil store countAtom = Div [Text (useRecoilValue store countAtom)]"

definition Buttons_recoil :: "(string \<rightharpoonup> rat) \<Rightarrow> atom \<Rightarrow> vnode" where
  "Buttons_recoil store countAtom =
     Div [Button ''-'' (js_minus (useRecoilValue store countAtom) 1),
          Button ''+'' (js_plus (useRecoilValue store countAtom) 1)]"

definition Count_recoil :: "(string \<rightharpoonup> rat) \<Rightarrow> atom \<Rightarrow> vnode" where
  "Count_recoil store countAtom =
     Div [CountReader_recoil store countAtom, Buttons_recoil store countAtom]"

definition App_recoil :: "(string \<rightharpoonup> rat) \<Rightarrow> atom \<Rightarrow> vnode" where
  "App_recoil store countAtom = Count_recoil store countAtom"

fun label_recoil :: "click \<Rightarrow> string" where
  "label_recoil Decrement = ''-''"
| "label_recoil Increment = ''+''"

definition click_recoil :: "atom \<Rightarrow> (string \<rightharpoonup> rat) \<Rightarrow> click \<Rightarrow> (string \<rightharpoonup> rat)" where
  "click_recoil countAtom store k =
     (case press (label_recoil k) (App_recoil store countAtom) of
        Some v \<Rightarrow> store(key countAtom \<mapsto> v)
      | None \<Rightarrow> store)"

definition run_recoil :: "atom \<Rightarrow> click list \<Rightarrow> (string \<rightharpoonup> rat)" where
  "run_recoil countAtom cs = foldl (click_recoil countAtom) Map.empty cs"

subsection \<open>The counter the claim describes\<close>

text \<open>
  Following the words of the claim, over the integers: from 0, an increment replaces
  \<open>c\<close> by \<open>c + 1\<close> and a decrement by \<open>c - 1\<close>.
\<close>

fun spec_click :: "int \<Rightarrow> click \<Rightarrow> int" where
  "spec_click c Increment = c + 1"
| "spec_click c Decrement = c - 1"

definition spec_count :: "click list \<Rightarrow> int" where
  "spec_count cs = foldl spec_click 0 cs"

section \<open>The asynchronous hooks\<close>

subsection \<open>useFetch (README.md 1361-1381)\<close>

text \<open>
  The three state variables of the hook, the dependency array of the last effect
  (\<open>None\<close> before the first render) and the urls of the fetches still in flight.
  \<^verbatim>\<open>null\<close> is \<open>None\<close>.
\<close>

record ('d, 'e) fetch_hook =
  data :: "'d option"
  loading :: bool
  error :: "'e option"
  fetch_deps :: "string option"
  in_flight :: "string list"






subsection \<open>useDebounce (README.md 1396-1408), used by unnamed/part\_002\<close>













section \<open>The source files and their imports\<close>

text \<open>
  A file of the repository: its path from the root of the sources and the module
  specifiers of its \<^verbatim>\<open>import\<close> statements, in order. A markdown file is not a module:
  the statements inside its fenced snippets are text, and its list is empty. Three
  components have lost their names and stand under \<^verbatim>\<open>unnamed/\<close>.
\<close>

record source_file =
  path :: string
  imported :: "string list"

definition recoil_App :: source_file where
  "recoil_App = \<lparr>path = ''25_Recoil/vite-project/src/App.jsx'',
                  imported = [''./store/atom/count.jsx'', ''recoil'']\<rparr>"

definition context_App :: source_file where
  "context_App = \<lparr>path = ''24_Context/vite-project/src/App.jsx'',
                   imported = [''react'', ''./Context.jsx'']\<rparr>"

definition corpus :: "source_file list" where
  "corpus =
     [recoil_App,
      \<lparr>path = ''NODEJS-README.md'', imported = []\<rparr>,
      \<lparr>path = ''README.md'', imported = []\<rparr>,
      \<lparr>path = ''README_ImportantReactConcepts.md'', imported = []\<rparr>,
      context_App,
      \<lparr>path = ''MONGODB-README.md'', imported = []\<rparr>,
      \<lparr>path = ''28_ReactAdvancedPatterns/errorBoundary.jsx'', imported = [''react'']\<rparr>,
      \<lparr>path = ''28_ReactAdvancedPatterns/childrenProps.jsx'', imported = []\<rparr>,
      \<lparr>path = ''unnamed/part_000'', imported = [''react'']\<rparr>,
      \<lparr>path = ''unnamed/part_001'', imported = [''react'', ''./hooks/useFetch'']\<rparr>,
      \<lparr>path = ''unnamed/part_002'', imported = [''react'', ''./hooks/useDebounce'']\<rparr>]"

text \<open>A path or specifier cut at its slashes.\<close>

fun segments_from :: "string \<Rightarrow> string \<Rightarrow> string list" where
  "segments_from acc [] = [rev acc]"
| "segments_from acc (c # cs) =
     (if c = CHR ''/'' then rev acc # segments_from [] cs else segments_from (c # acc) cs)"

definition segments :: "string \<Rightarrow> string list" where
  "segments s = segments_from [] s"

text \<open>
  Module resolution, as Node and Vite do it: a specifier that starts with \<^verbatim>\<open>./\<close> or
  \<^verbatim>\<open>../\<close> is a path relative to the directory of the importing file; \<^verbatim>\<open>.\<close> stays,
  \<^verbatim>\<open>..\<close> goes one directory up. Any other specifier names a package of
  \<^verbatim>\<open>node_modules\<close>, outside the repository (\<open>None\<close>).
\<close>

fun walk :: "string list \<Rightarrow> string list \<Rightarrow> string list" where
  "walk dir [] = dir"
| "walk dir (s # ss) =
     (if s = ''.'' then walk dir ss
      else if s = ''..'' then walk (butlast dir) ss
      else walk (dir @ [s]) ss)"

definition relative :: "string \<Rightarrow> bool" where
  "relative spec \<longleftrightarrow> take 2 spec = ''./'' \<or> take 3 spec = ''../''"

definition dirname :: "source_file \<Rightarrow> string list" where
  "dirname f = butlast (segments (path f))"

definition resolve :: "source_file \<Rightarrow> string \<Rightarrow> string list option" where
  "resolve f spec = (if relative spec then Some (walk (dirname f) (segments spec)) else None)"

text \<open>
  An import of \<open>f\<close> that resolves to a file of the repository other than \<open>f\<close>, and
  what C1 says of a file: it has no such import.
\<close>

definition repository_import :: "source_file \<Rightarrow> string \<Rightarrow> bool" where
  "repository_import f spec =
     (case resolve f spec of None \<Rightarrow> False | Some p \<Rightarrow> p \<noteq> segments (path f))"

definition leaf :: "source_file \<Rightarrow> bool" where
  "leaf f \<longleftrightarrow> \<not> list_ex (repository_import f) (imported f)"

text \<open>
  An import as the sources have them: a package, or a module in or below the directory
  of the importing file that is none of the source files at hand.
\<close>

definition package_or_own_module :: "source_file \<Rightarrow> string \<Rightarrow> bool" where
  "package_or_own_module f spec =
     (case resolve f spec of
        None \<Rightarrow> spec \<in> set [''react'', ''recoil'']
      | Some p \<Rightarrow> take (length (dirname f)) p = dirname f \<and>
                  length (dirname f) < length p \<and>
                  p \<notin> set (map (\<lambda>g. segments (path g)) corpus))"

section \<open>Properties of rounding\<close>

lemma floor_numeral_divide:
  "\<lfloor>numeral a / numeral b :: rat\<rfloor> = numeral a div numeral b"
  using floor_divide_of_int_eq[of "numeral a" "numeral b", where ?'a = rat] by simp

text \<open>The equations that evaluate the rounding of a given number.\<close>

lemmas double_eval = floor_numeral_divide double_def round_double_def ulp_def exponent_def
  exponent_down.simps exponent_up.simps round_even_def js_times_def js_plus_def js_minus_def

lemma exponent_up_spec:
  assumes "2 powi e \<le> x" "x < 2 powi (n + 1)" "e \<le> n" "n \<le> 1023"
  shows "e \<le> exponent_up e x \<and> exponent_up e x \<le> n \<and>
         2 powi (exponent_up e x) \<le> x \<and> x < 2 powi (exponent_up e x + 1)"
  using assms
proof (induction e x rule: exponent_up.induct)
  case (1 e x)
  show ?case
  proof (cases "1023 \<le> e \<or> x < 2 powi (e + 1)")
    case True
    then have stop: "exponent_up e x = e"
      by (subst exponent_up.simps) simp
    have "x < 2 powi (e + 1)"
    proof (cases "x < 2 powi (e + 1)")
      case True
      then show ?thesis .
    next
      case False
      then have "e = n" using True "1.prems" by linarith
      then show ?thesis using "1.prems" by simp
    qed
    then show ?thesis using stop "1.prems" by simp
  next
    case False
    then have go: "exponent_up e x = exponent_up (e + 1) x"
      by (subst exponent_up.simps) simp
    have lo: "2 powi (e + 1) \<le> x" using False by simp
    have "e \<noteq> n" using False "1.prems" by auto
    then have "e + 1 \<le> n" using "1.prems" by simp
    then show ?thesis
      using "1.IH"[OF False lo "1.prems"(2) _ "1.prems"(4)] go by simp
  qed
qed

lemma exponent_down_spec:
  assumes "x < 2 powi (e + 1)"
  shows "exponent_down e x \<le> e \<and> x < 2 powi (exponent_down e x + 1)"
  using assms
proof (induction e x rule: exponent_down.induct)
  case (1 e x)
  show ?case
  proof (cases "e \<le> - 1022 \<or> 2 powi e \<le> x")
    case True
    then have "exponent_down e x = e"
      by (subst exponent_down.simps) simp
    then show ?thesis using "1.prems" by simp
  next
    case False
    then have go: "exponent_down e x = exponent_down (e - 1) x"
      by (subst exponent_down.simps) simp
    have "x < 2 powi (e - 1 + 1)" using False by simp
    then show ?thesis
      using "1.IH"[OF False] go by simp
  qed
qed

lemma round_even_upper: "of_int (round_even q) \<le> q + 1 / 2"
  unfolding round_even_def by (auto simp: not_less) linarith+

lemma round_even_lower: "q - 1 / 2 \<le> of_int (round_even q)"
  unfolding round_even_def by (auto simp: not_less) linarith+

lemma round_even_of_int [simp]: "round_even (of_int m) = m"
  by (simp add: round_even_def)

lemma round_even_nonneg: "0 \<le> q \<Longrightarrow> 0 \<le> round_even q"
  unfolding round_even_def by (auto simp: not_less)

text \<open>Rounding a positive number never leaves its binade.\<close>

lemma round_up_to_binade:
  assumes "0 < x" "x < 2 powi (e + 1)"
  shows "of_int (round_even (x / 2 powi (e - 52))) * 2 powi (e - 52) \<le> (2 powi (e + 1) :: rat)"
proof -
  let ?u = "2 powi (e - 52) :: rat"
  have u: "0 < ?u" by simp
  have split: "(2 powi (e + 1) :: rat) = 2 ^ 53 * ?u"
  proof -
    have eq: "e + 1 = 53 + (e - 52)" by simp
    have "(2 powi (53 + (e - 52)) :: rat) = 2 powi 53 * 2 powi (e - 52)"
      by (rule power_int_add) simp
    then show ?thesis unfolding eq by simp
  qed
  have "x / ?u < 2 ^ 53"
    using assms u split by (simp add: field_simps)
  then have "(of_int (round_even (x / ?u)) :: rat) < 2 ^ 53 + 1 / 2 + 1 / 2"
    using round_even_upper[of "x / ?u"] by linarith
  then have "(of_int (round_even (x / ?u)) :: rat) < of_int (2 ^ 53 + 1)"
    by simp
  then have "round_even (x / ?u) < 2 ^ 53 + 1"
    by (simp only: of_int_less_iff)
  then have "round_even (x / ?u) \<le> 2 ^ 53" by simp
  then have "(of_int (round_even (x / ?u)) :: rat) \<le> of_int (2 ^ 53)"
    by (simp only: of_int_le_iff)
  then have "of_int (round_even (x / ?u)) * ?u \<le> 2 ^ 53 * ?u"
    using u by (simp add: mult_right_mono)
  then show ?thesis using split by simp
qed

lemma exponent_below_64:
  assumes "0 < x" "x < 64"
  shows "exponent x \<le> 5 \<and> x < 2 powi (exponent x + 1)"
proof (cases "1 \<le> x")
  case True
  have "0 \<le> exponent_up 0 x \<and> exponent_up 0 x \<le> 5 \<and>
        2 powi (exponent_up 0 x) \<le> x \<and> x < 2 powi (exponent_up 0 x + 1)"
    by (rule exponent_up_spec) (use True assms in simp_all)
  then show ?thesis using True by (simp add: exponent_def)
next
  case False
  then have "x < 2 powi (- 1 + 1)" by simp
  from exponent_down_spec[OF this] show ?thesis using False by (simp add: exponent_def)
qed

lemma exponent_32_64:
  assumes "32 \<le> x" "x < 64"
  shows "exponent x = 5"
proof -
  have e: "0 \<le> exponent_up 0 x \<and> exponent_up 0 x \<le> 5 \<and>
        2 powi (exponent_up 0 x) \<le> x \<and> x < 2 powi (exponent_up 0 x + 1)"
    by (rule exponent_up_spec) (use assms in simp_all)
  have "\<not> exponent_up 0 x + 1 \<le> 5"
  proof
    assume "exponent_up 0 x + 1 \<le> 5"
    then have "(2 powi (exponent_up 0 x + 1) :: rat) \<le> 2 powi 5"
      by (intro power_int_increasing) simp_all
    then show False using e assms by simp
  qed
  then show ?thesis using e assms by (simp add: exponent_def)
qed

text \<open>The product of a double below 1 and 62, rounded, is below 62.\<close>

lemma round_double_below_62:
  assumes "0 \<le> x" "x \<le> 62 * (1 - 1 / 2 ^ 53)"
  shows "0 \<le> round_double x \<and> round_double x < 62"
proof (cases "x = 0")
  case True
  then show ?thesis by (simp add: round_double_def)
next
  case False
  then have pos: "0 < x" using assms by simp
  have lt: "x < 64" using assms by simp
  have nonneg: "0 \<le> round_double x"
    using pos round_even_nonneg[of "x / ulp x"]
    by (simp add: round_double_def ulp_def)
  show ?thesis
  proof (cases "32 \<le> x")
    case True
    then have e: "exponent x = 5" using lt by (rule exponent_32_64)
    have u: "ulp x = 1 / 2 ^ 47"
      using pos e by (simp add: ulp_def power_int_minus_divide[of _ 47, simplified])
    define q where "q = x / ulp x"
    have "q = x * 2 ^ 47" by (simp add: q_def u)
    also have "\<dots> \<le> 62 * (1 - 1 / 2 ^ 53) * 2 ^ 47"
      using assms(2) by (intro mult_right_mono) simp_all
    finally have "q \<le> 62 * 2 ^ 47 - 31 / 32" by simp
    then have "(of_int (round_even q) :: rat) < of_int (62 * 2 ^ 47)"
      using round_even_upper[of q] by simp
    then have "(of_int (round_even q) :: rat) * (1 / 2 ^ 47) < of_int (62 * 2 ^ 47) * (1 / 2 ^ 47)"
      by (intro mult_strict_right_mono) simp_all
    moreover have "round_double x = of_int (round_even q) * (1 / 2 ^ 47)"
      using pos by (simp add: round_double_def q_def u)
    ultimately have "round_double x < 62" by simp
    then show ?thesis using nonneg by simp
  next
    case False
    then have x32: "x < 32" by simp
    have e: "exponent x \<le> 5 \<and> x < 2 powi (exponent x + 1)"
      using pos lt by (rule exponent_below_64)
    have "exponent x \<le> 4"
    proof (rule ccontr)
      assume "\<not> exponent x \<le> 4"
      then have e5: "exponent x = 5" using e by simp
      have "1 \<le> x"
      proof (rule ccontr)
        assume "\<not> 1 \<le> x"
        then have "x < 2 powi (- 1 + 1)" by simp
        from exponent_down_spec[OF this] have "exponent_down (- 1) x \<le> - 1" by simp
        then show False using e5 \<open>\<not> 1 \<le> x\<close> by (simp add: exponent_def)
      qed
      then have "2 powi (exponent_up 0 x) \<le> x"
        using exponent_up_spec[of 0 x 5] lt by simp
      then show False using e5 \<open>1 \<le> x\<close> x32 by (simp add: exponent_def)
    qed
    then have "(2 powi (exponent x + 1) :: rat) \<le> 2 powi 5"
      by (intro power_int_increasing) simp_all
    moreover have "of_int (round_even (x / 2 powi (exponent x - 52))) * 2 powi (exponent x - 52)
        \<le> (2 powi (exponent x + 1) :: rat)"
      using pos e by (intro round_up_to_binade) simp_all
    ultimately have "round_double x \<le> 32"
      using pos by (simp add: round_double_def ulp_def)
    then show ?thesis using nonneg by simp
  qed
qed

text \<open>The largest double below 1 is \<open>1 - 2^-53\<close>.\<close>

lemma double_below_1:
  assumes "double r" "r < 1"
  shows "r \<le> 1 - 1 / 2 ^ 53"
proof (cases "1 / 2 \<le> r")
  case False
  then show ?thesis by simp
next
  case True
  then have pos: "0 < r" by simp
  have "exponent_down (- 1) r = - 1"
    using True by (subst exponent_down.simps) simp
  then have u: "ulp r = 1 / 2 ^ 53"
    using pos assms by (simp add: ulp_def exponent_def power_int_minus_divide[of _ 53, simplified])
  define k where "k = round_even (r / ulp r)"
  have "round_double r = of_int k * ulp r"
    using pos by (simp add: round_double_def k_def)
  moreover have "round_double r = r" using assms by (simp add: double_def)
  ultimately have r: "r = of_int k * (1 / 2 ^ 53)"
    using u by simp
  then have "(of_int k :: rat) = r * 2 ^ 53"
    by simp
  also have "\<dots> < of_int (2 ^ 53)" using assms by simp
  finally have "k < 2 ^ 53"
    by (simp only: of_int_less_iff)
  then have "k \<le> 2 ^ 53 - 1" by simp
  then have "(of_int k :: rat) \<le> of_int (2 ^ 53 - 1)"
    by (simp only: of_int_le_iff)
  then have "(of_int k :: rat) * (1 / 2 ^ 53) \<le> of_int (2 ^ 53 - 1) * (1 / 2 ^ 53)"
    by (intro mult_right_mono) simp_all
  then have "r \<le> of_int (2 ^ 53 - 1) * (1 / 2 ^ 53)"
    using r by simp
  then show ?thesis by simp
qed

lemma round_double_minus: "round_double (- x) = - round_double x"
  by (simp add: round_double_def ulp_def)

lemma round_double_pos_int:
  assumes "0 < n" "n < 2 ^ 53"
  shows "round_double (of_int n) = of_int n"
proof -
  let ?x = "of_int n :: rat"
  have x1: "1 \<le> ?x" using assms by simp
  have "?x < of_int (2 ^ 53)" using assms(2) by (simp only: of_int_less_iff)
  then have "?x < 2 powi (52 + 1)" by simp
  then have e: "0 \<le> exponent_up 0 ?x \<and> exponent_up 0 ?x \<le> 52"
    using exponent_up_spec[of 0 ?x 52] x1 by simp
  define m where "m = nat (52 - exponent_up 0 ?x)"
  have "exponent_up 0 ?x - 52 = - int m" using e by (simp add: m_def)
  then have "(2 powi (exponent_up 0 ?x - 52) :: rat) = 1 / 2 ^ m"
    by (simp add: power_int_minus_divide)
  then have u: "ulp ?x = 1 / 2 ^ m"
    using x1 assms by (simp add: ulp_def exponent_def)
  have "?x / ulp ?x = of_int (n * 2 ^ m)"
    by (simp add: u)
  then have "round_even (?x / ulp ?x) = n * 2 ^ m"
    by (simp only: round_even_of_int)
  then have "round_double ?x = of_int (n * 2 ^ m) * (1 / 2 ^ m)"
    using assms by (simp add: round_double_def u)
  then show ?thesis by simp
qed

lemma round_double_2_53: "round_double (2 ^ 53) = 2 ^ 53"
  by (simp add: double_eval)

text \<open>Every integer up to \<open>2^53\<close> in magnitude is a double.\<close>

lemma round_double_int:
  assumes "\<bar>n\<bar> \<le> 2 ^ 53"
  shows "round_double (of_int n) = of_int n"
proof -
  have nonneg: "round_double (of_int k) = of_int k" if "0 \<le> k" "k \<le> 2 ^ 53" for k
  proof (cases "k = 0 \<or> k = 2 ^ 53")
    case True
    then show ?thesis using round_double_2_53 by (auto simp: round_double_def)
  next
    case False
    then show ?thesis using that by (intro round_double_pos_int) simp_all
  qed
  show ?thesis
  proof (cases "0 \<le> n")
    case True
    then show ?thesis using assms by (intro nonneg) simp_all
  next
    case False
    then have "round_double (of_int (- n)) = of_int (- n)"
      using assms by (intro nonneg) simp_all
    then show ?thesis using round_double_minus[of "of_int n"] by simp
  qed
qed

section \<open>Properties of generateToken\<close>

lemma length_options: "length options = 62"
  by (simp add: options_def)

lemma random_index_bounds:
  assumes "double (rnd i)" "0 \<le> rnd i" "rnd i < 1"
  shows "0 \<le> random_index rnd i \<and> random_index rnd i < 62"
proof -
  have "rnd i \<le> 1 - 1 / 2 ^ 53"
    using assms(1,3) by (rule double_below_1)
  then have "rnd i * 62 \<le> (1 - 1 / 2 ^ 53) * 62"
    by (intro mult_right_mono) simp_all
  then have "rnd i * 62 \<le> 62 * (1 - 1 / 2 ^ 53)"
    by simp
  moreover have "0 \<le> rnd i * 62" using assms(2) by simp
  ultimately have "0 \<le> round_double (rnd i * 62) \<and> round_double (rnd i * 62) < 62"
    by (intro round_double_below_62)
  then show ?thesis
    by (simp add: random_index_def js_times_def length_options floor_less_iff)
qed

text \<open>
  The rounding of the product is visible: for this value of \<^verbatim>\<open>Math.random()\<close> the
  exact product with 62 lies just below 16, the double nearest to it is 16.
\<close>

lemma random_index_rounds:
  "random_index (\<lambda>i. 1162219258676257 / 2 ^ 52) 0 = 16 \<and>
   \<lfloor>(1162219258676257 / 2 ^ 52 * 62 :: rat)\<rfloor> = 15 \<and>
   double (1162219258676257 / 2 ^ 52)"
  by (simp add: double_eval random_index_def options_def)

lemma js_index_in_range:
  "0 \<le> i \<Longrightarrow> i < int (length s) \<Longrightarrow> \<exists>c. js_index s i = Some [c] \<and> c \<in> set s"
  by (simp add: js_index_def)

lemma token_loop_inv:
  assumes "\<forall>k. i \<le> k \<and> k < 32 \<longrightarrow> double (rnd k) \<and> 0 \<le> rnd k \<and> rnd k < 1" "i \<le> 32"
  shows "length (token_loop rnd i t) = length t + (32 - i) \<and>
         set (token_loop rnd i t) \<subseteq> set t \<union> set options"
  using assms
proof (induction rnd i t rule: token_loop.induct)
  case (1 rnd i tok)
  show ?case
  proof (cases "i < 32")
    case True
    then have b: "0 \<le> random_index rnd i \<and> random_index rnd i < 62"
      using "1.prems" random_index_bounds by simp
    then obtain c where c: "js_index options (random_index rnd i) = Some [c]" "c \<in> set options"
      using js_index_in_range[of "random_index rnd i" options] length_options by auto
    have ih: "length (token_loop rnd (Suc i) (tok @ [c])) = length (tok @ [c]) + (32 - Suc i) \<and>
         set (token_loop rnd (Suc i) (tok @ [c])) \<subseteq> set (tok @ [c]) \<union> set options"
      using "1.IH"[OF True] "1.prems" True c by (simp add: js_concat_def)
    have step: "token_loop rnd i tok = token_loop rnd (Suc i) (tok @ [c])"
      using True c by (subst token_loop.simps) (simp add: js_concat_def)
    show ?thesis using ih step True c by auto
  next
    case False
    then show ?thesis using "1.prems" by (subst token_loop.simps, subst token_loop.simps) simp
  qed
qed

text \<open>
  C9: whenever the 32 values \<^verbatim>\<open>Math.random()\<close> returns are doubles in \<open>[0, 1)\<close>,
  \<^verbatim>\<open>generateToken()\<close> returns a string of exactly 32 characters, each of the
  62-character alphabet a-z, A-Z, 0-9, and every index
  \<^verbatim>\<open>Math.floor(Math.random() * options.length)\<close>, with the product rounded as
  JavaScript rounds it, is within bounds, so that the indexing never yields
  \<^verbatim>\<open>undefined\<close>.
\<close>

theorem generateToken_safe:
  assumes "list_all (\<lambda>i. double (rnd i) \<and> 0 \<le> rnd i \<and> rnd i < 1) [0..<32]"
  shows "length (generateToken rnd) = 32 \<and>
         set (generateToken rnd) \<subseteq> set options \<and>
         length options = 62 \<and>
         list_all (\<lambda>i. 0 \<le> random_index rnd i \<and> random_index rnd i < int (length options) \<and>
                        js_index options (random_index rnd i) \<noteq> None) [0..<32]"
proof -
  have r: "\<forall>k. k < 32 \<longrightarrow> double (rnd k) \<and> 0 \<le> rnd k \<and> rnd k < 1"
    using assms by (simp add: list_all_iff)
  then have "length (token_loop rnd 0 '''') = length ('''' :: string) + (32 - 0) \<and>
             set (token_loop rnd 0 '''') \<subseteq> set ('''' :: string) \<union> set options"
    by (intro token_loop_inv) simp_all
  then have tok: "length (generateToken rnd) = 32 \<and> set (generateToken rnd) \<subseteq> set options"
    by (simp add: generateToken_def)
  have "\<forall>i. i < 32 \<longrightarrow> 0 \<le> random_index rnd i \<and> random_index rnd i < int (length options) \<and>
          js_index options (random_index rnd i) \<noteq> None"
    using r random_index_bounds[of rnd] by (simp add: length_options js_index_def)
  then have idx: "list_all (\<lambda>i. 0 \<le> random_index rnd i \<and>
        random_index rnd i < int (length options) \<and>
        js_index options (random_index rnd i) \<noteq> None) [0..<32]"
    by (simp add: list_all_iff)
  show ?thesis using tok idx length_options by simp
qed

theorem generateToken_safe_witness:
  "list_all (\<lambda>i. double (of_nat i / 32) \<and> (0::rat) \<le> of_nat i / 32 \<and> (of_nat i / 32 :: rat) < 1)
     [0..<32] \<and>
   length (generateToken (\<lambda>i. of_nat i / 32)) = 32 \<and>
   set (generateToken (\<lambda>i. of_nat i / 32)) \<subseteq> set options \<and>
   generateToken (\<lambda>i. of_nat i / 32) = ''abdfhjlnprtvxzBDFGIKMOQSUWY02468''"
proof -
  have h: "list_all (\<lambda>i. double (of_nat i / 32) \<and> (0::rat) \<le> of_nat i / 32 \<and>
      (of_nat i / 32 :: rat) < 1) [0..<32]"
    by (simp add: double_eval upt_rec)
  have v: "generateToken (\<lambda>i. of_nat i / 32) = ''abdfhjlnprtvxzBDFGIKMOQSUWY02468''"
    by (simp add: generateToken_def token_loop.simps random_index_def js_index_def
        js_concat_def options_def double_eval)
  show ?thesis using h v generateToken_safe [OF h] by simp
qed

section \<open>Properties of ErrorBoundary\<close>

lemma boundary_step_keeps_error:
  "hasError (fst s) \<Longrightarrow> hasError (fst (boundary_step s ev))"
  by (cases s; cases ev) (simp_all add: getDerivedStateFromError_def)

lemma boundary_run_keeps_error:
  "hasError (fst s) \<Longrightarrow> hasError (fst (boundary_run s evs))"
  unfolding boundary_run_def
  by (induction evs arbitrary: s) (simp_all add: boundary_step_keeps_error)

lemma boundary_run_append:
  "boundary_run s (evs @ evs') = boundary_run (boundary_run s evs) evs'"
  by (simp add: boundary_run_def)

text \<open>
  C10: \<^verbatim>\<open>render\<close> returns the fallback "Something went wrong." exactly when
  \<^verbatim>\<open>state.hasError\<close> is true and \<^verbatim>\<open>props.children\<close> otherwise (as it does
  on the state the constructor sets);
  \<^verbatim>\<open>getDerivedStateFromError\<close> returns \<^verbatim>\<open>{ hasError: true }\<close> for every error; and
  no operation on a mounted boundary sets \<^verbatim>\<open>hasError\<close> back to false: once a child
  error has been caught, every later render, after any further events, is the fallback.
\<close>

theorem errorBoundary_monotone:
  "render state children =
     (if hasError state then Fallback ''Something went wrong.'' else Children children) \<and>
   (render state children = Fallback ''Something went wrong.'' \<longleftrightarrow> hasError state) \<and>
   render constructor children = Children children \<and>
   getDerivedStateFromError err = \<lparr>hasError = True\<rparr> \<and>
   hasError (fst (boundary_run s (evs @ [ChildThrew err info]))) \<and>
   hasError (fst (boundary_run s (evs @ [ChildThrew err info] @ evs'))) \<and>
   render (fst (boundary_run s (evs @ [ChildThrew err info] @ evs'))) children =
     Fallback ''Something went wrong.''"
proof -
  have caught: "hasError (fst (boundary_run s (evs @ [ChildThrew err info])))"
    by (cases "boundary_run s evs")
       (simp add: boundary_run_append, simp add: boundary_run_def getDerivedStateFromError_def)
  have later: "hasError (fst (boundary_run s (evs @ [ChildThrew err info] @ evs')))"
    using boundary_run_keeps_error[OF caught, of evs'] by (simp add: boundary_run_def)
  show ?thesis
    using caught later by (simp add: render_def getDerivedStateFromError_def constructor_def)
qed

section \<open>Properties of the /signin handlers\<close>

lemma accepted_not_rejected: "\<not> (accepted r \<and> rejected r)"
  by (simp add: accepted_def rejected_def)

lemma find_plain:
  "(find (\<lambda>u. username u = uname \<and> password u = pw) us = None) =
   (\<not> list_ex (matches_plain uname pw) us)"
  by (auto simp: find_None_iff list_ex_iff matches_plain_def)

lemma signin_readme_verdict:
  "(if list_ex (matches_plain uname pw) (users st)
    then accepted (fst (signin_readme rnd uname pw st))
    else rejected (fst (signin_readme rnd uname pw st)))"
proof (cases "find (\<lambda>u. username u = uname \<and> password u = pw) (users st)")
  case None
  then show ?thesis
    using find_plain[of uname pw "users st"]
    by (simp add: signin_readme_def rejected_def invalid_body_def)
next
  case (Some u)
  then show ?thesis
    using find_plain[of uname pw "users st"]
    by (simp add: signin_readme_def accepted_def success_body_def Let_def)
qed

lemma signin_nodejs_verdict:
  "(if list_ex (matches_plain uname pw) (users st)
    then accepted (fst (signin_nodejs rnd uname pw st))
    else rejected (fst (signin_nodejs rnd uname pw st)))"
proof (cases "find (\<lambda>u. username u = uname \<and> password u = pw) (users st)")
  case None
  then show ?thesis
    using find_plain[of uname pw "users st"]
    by (simp add: signin_nodejs_def rejected_def invalid_body_def)
next
  case (Some u)
  then show ?thesis
    using find_plain[of uname pw "users st"]
    by (simp add: signin_nodejs_def accepted_def success_body_def Let_def)
qed

lemma signin_jwt_verdict:
  "(if list_ex (matches_plain uname pw) us
    then accepted (signin_jwt sign uname pw us)
    else rejected (signin_jwt sign uname pw us))"
proof (cases "find (\<lambda>u. username u = uname \<and> password u = pw) us")
  case None
  then show ?thesis
    using find_plain[of uname pw us]
    by (simp add: signin_jwt_def rejected_def invalid_body_def)
next
  case (Some u)
  then show ?thesis
    using find_plain[of uname pw us]
    by (simp add: signin_jwt_def accepted_def success_body_def)
qed

lemma signin_bcrypt_verdict:
  "(if first_user_valid compare uname pw db
    then accepted (signin_bcrypt compare sign uname pw db)
    else rejected (signin_bcrypt compare sign uname pw db))"
  by (simp add: first_user_valid_def signin_bcrypt_def accepted_def rejected_def
      success_body_def invalid_body_def split: option.split)

lemma signin_mongo_jwt_verdict:
  "(if first_user_valid compare uname pw db
    then accepted (signin_mongo_jwt compare sign secret uname pw db)
    else rejected (signin_mongo_jwt compare sign secret uname pw db))"
  by (simp add: first_user_valid_def signin_mongo_jwt_def accepted_def rejected_def
      success_body_def invalid_body_def split: option.split)

lemma signin_mongo_verdict:
  "(if first_user_valid compare uname pw db
    then accepted (signin_mongo compare uname pw db)
    else rejected (signin_mongo compare uname pw db))"
  by (simp add: first_user_valid_def signin_mongo_def accepted_def rejected_def
      success_body_def invalid_body_def split: option.split)

lemma signin_problem1_verdict:
  "(if first_user_valid compare uname pw db
    then accepted (signin_problem1 compare sign uname pw db)
    else rejected (signin_problem1 compare sign uname pw db))"
  by (simp add: first_user_valid_def signin_problem1_def accepted_def rejected_def
      success_body_def invalid_body_def split: option.split)

lemma unique_username_first_user:
  assumes "distinct (map username db)"
  shows "first_user_valid compare uname pw db = list_ex (matches_hashed compare uname pw) db"
proof (cases "find (\<lambda>u. username u = uname) db")
  case None
  then have "\<forall>u\<in>set db. username u \<noteq> uname"
    by (auto simp: find_None_iff)
  then have "\<not> list_ex (matches_hashed compare uname pw) db"
    by (auto simp: list_ex_iff matches_hashed_def)
  then show ?thesis
    using None by (simp add: first_user_valid_def)
next
  case (Some v)
  then have v: "v \<in> set db \<and> username v = uname"
    by (auto simp: find_Some_iff)
  have inj: "inj_on username (set db)"
    using assms by (simp add: distinct_map)
  have only: "u = v" if "u \<in> set db" "username u = uname" for u
    using inj v that by (metis inj_onD)
  have "list_ex (matches_hashed compare uname pw) db = compare pw (password v)"
  proof
    assume "list_ex (matches_hashed compare uname pw) db"
    then obtain u where "u \<in> set db" "username u = uname" "compare pw (password u)"
      unfolding list_ex_iff matches_hashed_def by blast
    then show "compare pw (password v)"
      using only by blast
  next
    assume "compare pw (password v)"
    then show "list_ex (matches_hashed compare uname pw) db"
      unfolding list_ex_iff matches_hashed_def using v by blast
  qed
  then show ?thesis
    using Some by (simp add: first_user_valid_def)
qed

text \<open>
  C2, as amended: the handlers over the in-memory array answer 403 with an
  invalid-credentials message exactly when no stored user has the submitted username and
  password, and 200 with a token otherwise. The handlers over MongoDB look at one
  document only, the first with the submitted username: they answer 403 exactly when
  there is none or \<^verbatim>\<open>bcrypt.compare\<close> rejects the password against its hash, and
  200 with a token or the success message otherwise; where the stored usernames are
  pairwise different this is exactly when the submitted pair matches no stored user.
\<close>

theorem signin_403_iff_invalid:
  "(if list_ex (matches_plain uname pw) (users st)
    then accepted (fst (signin_readme rnd uname pw st)) \<and>
         accepted (fst (signin_nodejs rnd uname pw st)) \<and>
         accepted (signin_jwt sign uname pw (users st))
    else rejected (fst (signin_readme rnd uname pw st)) \<and>
         rejected (fst (signin_nodejs rnd uname pw st)) \<and>
         rejected (signin_jwt sign uname pw (users st))) \<and>
   (if first_user_valid compare uname pw db
    then accepted (signin_bcrypt compare sign uname pw db) \<and>
         accepted (signin_mongo_jwt compare sign secret uname pw db) \<and>
         accepted (signin_mongo compare uname pw db) \<and>
         accepted (signin_problem1 compare sign uname pw db)
    else rejected (signin_bcrypt compare sign uname pw db) \<and>
         rejected (signin_mongo_jwt compare sign secret uname pw db) \<and>
         rejected (signin_mongo compare uname pw db) \<and>
         rejected (signin_problem1 compare sign uname pw db)) \<and>
   (distinct (map username db) \<longrightarrow>
      first_user_valid compare uname pw db = list_ex (matches_hashed compare uname pw) db) \<and>
   \<not> (accepted r \<and> rejected r)"
proof -
  have plain: "(if list_ex (matches_plain uname pw) (users st)
    then accepted (fst (signin_readme rnd uname pw st)) \<and>
         accepted (fst (signin_nodejs rnd uname pw st)) \<and>
         accepted (signin_jwt sign uname pw (users st))
    else rejected (fst (signin_readme rnd uname pw st)) \<and>
         rejected (fst (signin_nodejs rnd uname pw st)) \<and>
         rejected (signin_jwt sign uname pw (users st)))"
    using signin_readme_verdict[of uname pw st rnd] signin_nodejs_verdict[of uname pw st rnd]
      signin_jwt_verdict[of uname pw "users st" sign]
    by (simp split: if_splits)
  have hashed: "(if first_user_valid compare uname pw db
    then accepted (signin_bcrypt compare sign uname pw db) \<and>
         accepted (signin_mongo_jwt compare sign secret uname pw db) \<and>
         accepted (signin_mongo compare uname pw db) \<and>
         accepted (signin_problem1 compare sign uname pw db)
    else rejected (signin_bcrypt compare sign uname pw db) \<and>
         rejected (signin_mongo_jwt compare sign secret uname pw db) \<and>
         rejected (signin_mongo compare uname pw db) \<and>
         rejected (signin_problem1 compare sign uname pw db))"
    using signin_bcrypt_verdict[of compare uname pw db sign]
      signin_mongo_jwt_verdict[of compare uname pw db sign secret]
      signin_mongo_verdict[of compare uname pw db]
      signin_problem1_verdict[of compare uname pw db sign]
    by (simp split: if_splits)
  show ?thesis
    using plain hashed unique_username_first_user[of db compare uname pw] accepted_not_rejected[of r]
    by blast
qed

theorem signin_403_iff_invalid_witness:
  "distinct (map username [\<lparr>username = ''alice'', password = demo_hash ''first'', token = None\<rparr>,
                           \<lparr>username = ''bob'', password = demo_hash ''second'', token = None\<rparr>]) \<and>
   list_ex (matches_hashed demo_compare ''bob'' ''second'')
     [\<lparr>username = ''alice'', password = demo_hash ''first'', token = None\<rparr>,
      \<lparr>username = ''bob'', password = demo_hash ''second'', token = None\<rparr>] \<and>
   accepted (signin_mongo demo_compare ''bob'' ''second''
     [\<lparr>username = ''alice'', password = demo_hash ''first'', token = None\<rparr>,
      \<lparr>username = ''bob'', password = demo_hash ''second'', token = None\<rparr>]) \<and>
   \<not> list_ex (matches_plain ''bob'' ''second'') (users boot) \<and>
   rejected (fst (signin_readme (\<lambda>i. 0) ''bob'' ''second'' boot))"
proof -
  have d: "distinct (map username [\<lparr>username = ''alice'', password = demo_hash ''first'', token = None\<rparr>,
                           \<lparr>username = ''bob'', password = demo_hash ''second'', token = None\<rparr>])"
    by simp
  have m: "list_ex (matches_hashed demo_compare ''bob'' ''second'')
     [\<lparr>username = ''alice'', password = demo_hash ''first'', token = None\<rparr>,
      \<lparr>username = ''bob'', password = demo_hash ''second'', token = None\<rparr>]"
    by (simp add: matches_hashed_def demo_compare_def)
  have e: "\<not> list_ex (matches_plain ''bob'' ''second'') (users boot)"
    by (simp add: boot_def)
  show ?thesis
    using d m e
      signin_403_iff_invalid [where uname = "''bob''" and pw = "''second''" and st = boot
        and rnd = "\<lambda>i. 0" and compare = demo_compare
        and db = "[\<lparr>username = ''alice'', password = demo_hash ''first'', token = None\<rparr>,
                   \<lparr>username = ''bob'', password = demo_hash ''second'', token = None\<rparr>]"]
    by simp
qed

text \<open>
  C2 as stated fails for the handlers over MongoDB: \<^verbatim>\<open>/signup\<close> stores a second
  document for a username already taken, \<^verbatim>\<open>findOne\<close> returns the first, and the
  password of the second is answered with 403 although the pair matches a stored user.
\<close>

theorem signin_duplicate_username_counterexample:
  "list_ex (matches_hashed demo_compare ''alice'' ''second'')
     (snd (signup_mongo demo_hash ''User created successfully'' ''alice'' ''second''
        (snd (signup_mongo demo_hash ''User created successfully'' ''alice'' ''first'' [])))) \<and>
   signin_mongo demo_compare ''alice'' ''second''
     (snd (signup_mongo demo_hash ''User created successfully'' ''alice'' ''second''
        (snd (signup_mongo demo_hash ''User created successfully'' ''alice'' ''first'' [])))) =
     \<lparr>status = 403, body = [(''message'', ''Invalid credentials'')]\<rparr>"
  by (simp add: signup_mongo_def signin_mongo_def matches_hashed_def demo_compare_def
      demo_hash_def)

section \<open>The two token-based snippets compared\<close>

lemma signin_same: "signin_readme rnd uname pw st = signin_nodejs rnd uname pw st"
  by (simp add: signin_readme_def signin_nodejs_def)

lemma signup_same_store: "snd (signup_readme uname pw st) = snd (signup_nodejs uname pw st)"
  by (simp add: signup_readme_def signup_nodejs_def)

lemma me_same_store: "snd (me_readme hdr st) = st \<and> snd (me_nodejs hdr st) = st"
  by (simp add: me_readme_def me_nodejs_def split: option.split)

lemma me_same_known:
  "find (\<lambda>u. token u = hdr) (users st) = Some u \<Longrightarrow>
   me_readme hdr st = me_nodejs hdr st \<and>
   fst (me_readme hdr st) = \<lparr>status = 200, body = [(''username'', username u)]\<rparr>"
  by (simp add: me_readme_def me_nodejs_def)

lemma handle_same:
  "snd (handle_readme rnd q st) = snd (handle_nodejs rnd q st) \<and>
   answers_agree q st (fst (handle_readme rnd q st)) (fst (handle_nodejs rnd q st))"
proof (cases q)
  case (PostSignup uname pw)
  then show ?thesis by (simp add: signup_readme_def signup_nodejs_def)
next
  case (PostSignin uname pw)
  then show ?thesis using signin_same[of rnd uname pw st] by simp
next
  case (GetMe hdr)
  then show ?thesis
    using me_same_store[of hdr st] me_same_known[of hdr st]
    by (simp split: option.split)
qed

lemma trace_same:
  "list_all2 same_step (trace (handle_readme rnd) qs st) (trace (handle_nodejs rnd) qs st)"
proof (induction qs arbitrary: st)
  case Nil
  then show ?case by simp
next
  case (Cons q qs)
  have "snd (handle_readme rnd q st) = snd (handle_nodejs rnd q st)"
    using handle_same[of rnd q st] by simp
  then show ?case
    using handle_same[of rnd q st] Cons.IH[of "snd (handle_readme rnd q st)"] by simp
qed

lemma serve_all_trace:
  "fst (serve_all h qs st) = map (\<lambda>(q, s, r). r) (trace h qs st)"
proof (induction qs arbitrary: st)
  case Nil
  then show ?case by simp
next
  case (Cons q qs)
  obtain r st' where one: "h q st = (r, st')"
    by (cases "h q st")
  obtain rs st'' where rest: "serve_all h qs st' = (rs, st'')"
    by (cases "serve_all h qs st'")
  have "rs = map (\<lambda>(q, s, r). r) (trace h qs st')"
    using Cons.IH[of st'] rest by simp
  then show ?case
    using one rest by simp
qed

lemma serve_same_store:
  "snd (serve_all (handle_readme rnd) qs st) = snd (serve_all (handle_nodejs rnd) qs st)"
proof (induction qs arbitrary: st)
  case Nil
  then show ?case by simp
next
  case (Cons q qs)
  have "snd (handle_readme rnd q st) = snd (handle_nodejs rnd q st)"
    using handle_same[of rnd q st] by simp
  then show ?case
    using Cons.IH[of "snd (handle_nodejs rnd q st)"] by (auto split: prod.splits)
qed

text \<open>
  C8, as amended: for every sequence of \<^verbatim>\<open>/signup\<close>, \<^verbatim>\<open>/signin\<close> and \<^verbatim>\<open>/me\<close>
  requests, the token-based snippets of README.md and NODEJS-README.md go through the
  same stores, request by request, and end in the same store. To \<^verbatim>\<open>/signin\<close> they
  give the same answer, status and body. To \<^verbatim>\<open>/signup\<close> both answer 200, README.md
  with the message "You have signed up" and NODEJS-README.md with "User created". To
  \<^verbatim>\<open>/me\<close> with the token of a stored user both answer 200 with that user's name.
\<close>

theorem token_snippets_agree:
  "snd (serve_all (handle_readme rnd) qs st) = snd (serve_all (handle_nodejs rnd) qs st) \<and>
   list_all2 same_step (trace (handle_readme rnd) qs st) (trace (handle_nodejs rnd) qs st) \<and>
   fst (serve_all (handle_readme rnd) qs st) =
     map (\<lambda>(q, s, r). r) (trace (handle_readme rnd) qs st) \<and>
   fst (serve_all (handle_nodejs rnd) qs st) =
     map (\<lambda>(q, s, r). r) (trace (handle_nodejs rnd) qs st) \<and>
   signin_readme rnd uname pw st = signin_nodejs rnd uname pw st \<and>
   snd (signup_readme uname pw st) = snd (signup_nodejs uname pw st) \<and>
   (case find (\<lambda>u. token u = hdr) (users st) of
      None \<Rightarrow> True
    | Some u \<Rightarrow> me_readme hdr st = me_nodejs hdr st \<and>
        fst (me_readme hdr st) = \<lparr>status = 200, body = [(''username'', username u)]\<rparr>)"
  using serve_same_store[of rnd qs st] trace_same[of rnd qs st]
    serve_all_trace[of "handle_readme rnd" qs st] serve_all_trace[of "handle_nodejs rnd" qs st]
    signin_same[of rnd uname pw st] signup_same_store[of uname pw st] me_same_known[of hdr st]
  by (auto split: option.split)

lemma generateToken_zero: "generateToken (\<lambda>i. 0) = ''aaaaaaaaaaaaaaaaaaaaaaaaaaaaaaaa''"
  by (simp add: generateToken_def token_loop.simps random_index_def js_index_def
      js_concat_def options_def double_eval)

theorem token_snippets_agree_witness:
  "find (\<lambda>u. token u = Some ''aaaaaaaaaaaaaaaaaaaaaaaaaaaaaaaa'')
     (users (snd (serve_all (handle_readme (\<lambda>i. 0))
        [PostSignup ''a'' ''b'', PostSignin ''a'' ''b''] boot))) =
     Some \<lparr>username = ''a'', password = ''b'', token = Some ''aaaaaaaaaaaaaaaaaaaaaaaaaaaaaaaa''\<rparr> \<and>
   fst (me_nodejs (Some ''aaaaaaaaaaaaaaaaaaaaaaaaaaaaaaaa'')
     (snd (serve_all (handle_readme (\<lambda>i. 0))
        [PostSignup ''a'' ''b'', PostSignin ''a'' ''b''] boot))) =
     \<lparr>status = 200, body = [(''username'', ''a'')]\<rparr>"
proof -
  let ?t = "Some ''aaaaaaaaaaaaaaaaaaaaaaaaaaaaaaaa''"
  let ?S = "\<lparr>users = [\<lparr>username = ''a'', password = ''b'', token = ?t\<rparr>], random_calls = 32\<rparr>"
  have st: "snd (serve_all (handle_readme (\<lambda>i. 0))
        [PostSignup ''a'' ''b'', PostSignin ''a'' ''b''] boot) = ?S"
    by (simp add: boot_def signup_readme_def signin_readme_def generateToken_zero Let_def)
  show ?thesis
    using token_snippets_agree [of "\<lambda>i. 0" "[]" ?S "''a''" "''b''" ?t]
    unfolding st by (simp add: me_readme_def me_nodejs_def)
qed

text \<open>
  C8 as stated fails: the two \<^verbatim>\<open>/signup\<close> handlers answer the same request with
  different bodies, and \<^verbatim>\<open>GET /me\<close> with an unknown token is answered 200 by
  README.md and 401 by NODEJS-README.md.
\<close>

theorem token_snippets_differ_counterexample:
  "fst (serve_all (handle_readme (\<lambda>i. 0)) [PostSignup ''a'' ''b'', GetMe (Some ''nope'')] boot) =
     [\<lparr>status = 200, body = [(''message'', ''You have signed up'')]\<rparr>,
      \<lparr>status = 200, body = [(''message'', ''Token Invalid'')]\<rparr>] \<and>
   fst (serve_all (handle_nodejs (\<lambda>i. 0)) [PostSignup ''a'' ''b'', GetMe (Some ''nope'')] boot) =
     [\<lparr>status = 200, body = [(''message'', ''User created'')]\<rparr>,
      \<lparr>status = 401, body = [(''message'', ''Unauthorized'')]\<rparr>]"
  by (simp add: boot_def signup_readme_def signup_nodejs_def me_readme_def me_nodejs_def)

section \<open>State shared between examples\<close>
















section \<open>The three counters agree\<close>

lemma click_prop_js:
  "click_prop c Increment = js_plus c 1 \<and> click_prop c Decrement = js_minus c 1"
  by (simp add: click_prop_def press_def App_prop_def Count_prop_def Buttons_prop_def)

lemma click_context_prop: "click_context c k = click_prop c k"
  by (cases k)
     (simp_all add: click_context_def click_prop_def press_def App_context_def Count_context_def
        CountReader_context_def Buttons_context_def App_prop_def Count_prop_def Buttons_prop_def)

lemma click_recoil_prop:
  "useRecoilValue (click_recoil a store k) a = click_prop (useRecoilValue store a) k"
  by (cases k)
     (simp_all add: click_recoil_def click_prop_def press_def App_recoil_def Count_recoil_def
        CountReader_recoil_def Buttons_recoil_def useRecoilValue_def App_prop_def Count_prop_def
        Buttons_prop_def)

lemma foldl_context: "foldl click_context c cs = foldl click_prop c cs"
  by (induction cs arbitrary: c) (simp_all add: click_context_prop)

lemma foldl_recoil:
  "useRecoilValue (foldl (click_recoil a) store cs) a = foldl click_prop (useRecoilValue store a) cs"
  by (induction cs arbitrary: store) (simp_all add: click_recoil_prop)

lemma click_prop_exact:
  assumes "\<bar>n\<bar> < 2 ^ 53"
  shows "click_prop (of_int n) k = of_int (spec_click n k)"
proof (cases k)
  case Increment
  have "round_double (of_int (n + 1)) = of_int (n + 1)"
    using assms by (intro round_double_int) simp
  then show ?thesis
    using Increment click_prop_js[of "of_int n"] by (simp add: js_plus_def)
next
  case Decrement
  have "round_double (of_int (n - 1)) = of_int (n - 1)"
    using assms by (intro round_double_int) simp
  then show ?thesis
    using Decrement click_prop_js[of "of_int n"] by (simp add: js_minus_def)
qed

lemma spec_click_step: "\<bar>spec_click n k\<bar> \<le> \<bar>n\<bar> + 1"
  by (cases k) simp_all

lemma run_prop_exact:
  "length cs \<le> 2 ^ 53 \<Longrightarrow>
   run_prop cs = of_int (spec_count cs) \<and> \<bar>spec_count cs\<bar> \<le> int (length cs)"
proof (induction cs rule: rev_induct)
  case Nil
  then show ?case by (simp add: run_prop_def spec_count_def)
next
  case (snoc k cs)
  then have len: "int (length cs) < 2 ^ 53"
    by simp
  then have "length cs \<le> 2 ^ 53"
    using snoc.prems by simp
  then have ih: "run_prop cs = of_int (spec_count cs)" "\<bar>spec_count cs\<bar> \<le> int (length cs)"
    using snoc.IH by simp_all
  have "click_prop (of_int (spec_count cs)) k = of_int (spec_click (spec_count cs) k)"
    using ih(2) len by (intro click_prop_exact) simp
  then have "run_prop (cs @ [k]) = of_int (spec_count (cs @ [k]))"
    using ih(1) by (simp add: run_prop_def spec_count_def)
  moreover have "\<bar>spec_count (cs @ [k])\<bar> \<le> int (length (cs @ [k]))"
    using ih(2) spec_click_step[of "spec_count cs" k] by (simp add: spec_count_def)
  ultimately show ?case by simp
qed

text \<open>
  Where the integers end: at \<open>2^53\<close> an increment leaves the count as it is, in all
  three variants alike.
\<close>

lemma round_double_2_53_1: "round_double (2 ^ 53 + 1) = 2 ^ 53"
  by (simp add: double_eval)

lemma click_prop_saturates: "click_prop (2 ^ 53) Increment = 2 ^ 53"
  using click_prop_js[of "2 ^ 53"] round_double_2_53_1 by (simp only: js_plus_def)

text \<open>
  C6: with an atom whose default is 0, the prop-drilling, Context and Recoil counters
  are the same counter. In each, a click on the increment button replaces the count
  \<open>c\<close> by \<^verbatim>\<open>c + 1\<close>, one on the decrement button by \<^verbatim>\<open>c - 1\<close>, as JavaScript
  computes them; the reader shows the current count and nothing else; and after every
  sequence of clicks the three show the same number. For a count below \<open>2^53\<close> in
  magnitude the new count is the integer \<open>c + 1\<close> or \<open>c - 1\<close>, so that after up to
  \<open>2^53\<close> clicks the number shown is the counter of the claim.
\<close>

theorem counters_equivalent:
  assumes "default countAtom = 0"
  shows "click_prop c Increment = js_plus c 1 \<and> click_prop c Decrement = js_minus c 1 \<and>
         click_context c k = click_prop c k \<and>
         useRecoilValue (click_recoil countAtom store k) countAtom =
           click_prop (useRecoilValue store countAtom) k \<and>
         texts (App_prop (run_prop cs)) = [run_prop cs] \<and>
         texts (App_context (run_context cs)) = [run_prop cs] \<and>
         texts (App_recoil (run_recoil countAtom cs) countAtom) = [run_prop cs] \<and>
         (\<bar>n\<bar> < 2 ^ 53 \<longrightarrow> click_prop (of_int n) k = of_int (spec_click n k)) \<and>
         (length cs \<le> 2 ^ 53 \<longrightarrow> run_prop cs = of_int (spec_count cs))"
proof -
  have "useRecoilValue Map.empty countAtom = 0"
    using assms by (simp add: useRecoilValue_def)
  then have r: "useRecoilValue (run_recoil countAtom cs) countAtom = run_prop cs"
    using foldl_recoil[of countAtom Map.empty cs] by (simp add: run_recoil_def run_prop_def)
  have x: "run_context cs = run_prop cs"
    by (simp add: run_context_def run_prop_def foldl_context)
  have shown: "texts (App_prop (run_prop cs)) = [run_prop cs] \<and>
         texts (App_context (run_context cs)) = [run_prop cs] \<and>
         texts (App_recoil (run_recoil countAtom cs) countAtom) = [run_prop cs]"
    using r x
    by (simp add: App_prop_def Count_prop_def Buttons_prop_def App_context_def Count_context_def
        CountReader_context_def Buttons_context_def App_recoil_def Count_recoil_def
        CountReader_recoil_def Buttons_recoil_def)
  show ?thesis
    using shown click_prop_js[of c] click_context_prop[of c k]
      click_recoil_prop[of countAtom store k] click_prop_exact[of n k] run_prop_exact[of cs]
    by blast
qed

theorem counters_equivalent_witness:
  "default \<lparr>key = ''countAtom'', default = 0\<rparr> = 0 \<and>
   \<bar>41 :: int\<bar> < 2 ^ 53 \<and> click_prop 41 Increment = 42 \<and>
   length [Increment, Increment, Decrement, Increment] \<le> 2 ^ 53 \<and>
   texts (App_prop (run_prop [Increment, Increment, Decrement, Increment])) = [2] \<and>
   texts (App_context (run_context [Increment, Increment, Decrement, Increment])) = [2] \<and>
   texts (App_recoil (run_recoil \<lparr>key = ''countAtom'', default = 0\<rparr>
      [Increment, Increment, Decrement, Increment]) \<lparr>key = ''countAtom'', default = 0\<rparr>) = [2]"
proof -
  have d: "default \<lparr>key = ''countAtom'', default = 0\<rparr> = 0" by simp
  have s: "spec_count [Increment, Increment, Decrement, Increment] = 2"
    by (simp add: spec_count_def)
  have l: "length [Increment, Increment, Decrement, Increment] \<le> 2 ^ 53" by simp
  have n: "\<bar>41 :: int\<bar> < 2 ^ 53" by simp
  note T = counters_equivalent [OF d, of 0 Increment Map.empty
      "[Increment, Increment, Decrement, Increment]" 41]
  have e: "click_prop 41 Increment = 42"
    using T n by simp
  have r: "run_prop [Increment, Increment, Decrement, Increment] = 2"
    using T l s by simp
  have t: "texts (App_prop (run_prop [Increment, Increment, Decrement, Increment])) =
        [run_prop [Increment, Increment, Decrement, Increment]] \<and>
      texts (App_context (run_context [Increment, Increment, Decrement, Increment])) =
        [run_prop [Increment, Increment, Decrement, Increment]] \<and>
      texts (App_recoil (run_recoil \<lparr>key = ''countAtom'', default = 0\<rparr>
        [Increment, Increment, Decrement, Increment]) \<lparr>key = ''countAtom'', default = 0\<rparr>) =
        [run_prop [Increment, Increment, Decrement, Increment]]"
    using T by blast
  show ?thesis
    using d l n e t unfolding r by simp
qed

section \<open>Cancellation and failure handling in the hooks\<close>










section \<open>Dependencies between the source files\<close>

lemma segments_paths:
  "segments ''25_Recoil/vite-project/src/App.jsx'' = [''25_Recoil'', ''vite-project'', ''src'', ''App.jsx'']"
  "segments ''24_Context/vite-project/src/App.jsx'' = [''24_Context'', ''vite-project'', ''src'', ''App.jsx'']"
  "segments ''28_ReactAdvancedPatterns/errorBoundary.jsx'' = [''28_ReactAdvancedPatterns'', ''errorBoundary.jsx'']"
  "segments ''28_ReactAdvancedPatterns/childrenProps.jsx'' = [''28_ReactAdvancedPatterns'', ''childrenProps.jsx'']"
  "segments ''NODEJS-README.md'' = [''NODEJS-README.md'']"
  "segments ''README.md'' = [''README.md'']"
  "segments ''README_ImportantReactConcepts.md'' = [''README_ImportantReactConcepts.md'']"
  "segments ''MONGODB-README.md'' = [''MONGODB-README.md'']"
  "segments ''unnamed/part_000'' = [''unnamed'', ''part_000'']"
  "segments ''unnamed/part_001'' = [''unnamed'', ''part_001'']"
  "segments ''unnamed/part_002'' = [''unnamed'', ''part_002'']"
  by (simp_all add: segments_def)

lemma segments_specifiers:
  "segments ''./store/atom/count.jsx'' = [''.'', ''store'', ''atom'', ''count.jsx'']"
  "segments ''./Context.jsx'' = [''.'', ''Context.jsx'']"
  "segments ''./hooks/useFetch'' = [''.'', ''hooks'', ''useFetch'']"
  "segments ''./hooks/useDebounce'' = [''.'', ''hooks'', ''useDebounce'']"
  by (simp_all add: segments_def)

text \<open>
  C1, as amended: none of the source files imports another of the source files at hand.
  Every import is either a third-party package (\<^verbatim>\<open>react\<close>, \<^verbatim>\<open>recoil\<close>) or a relative
  path to a module of the same project, in or below the directory of the importing file;
  the markdown files and \<^verbatim>\<open>childrenProps.jsx\<close> import nothing.
\<close>

theorem imports_packages_or_own_modules:
  "list_all (\<lambda>f. list_all (package_or_own_module f) (imported f)) corpus"
  by (simp add: corpus_def recoil_App_def context_App_def package_or_own_module_def resolve_def
      relative_def dirname_def segments_paths segments_specifiers)

text \<open>
  C1 as stated fails: \<^verbatim>\<open>App.jsx\<close> of 25\_Recoil imports \<^verbatim>\<open>countAtom\<close> from
  \<^verbatim>\<open>./store/atom/count.jsx\<close>, a module of the repository beside it, and
  \<^verbatim>\<open>App.jsx\<close> of 24\_Context imports \<^verbatim>\<open>./Context.jsx\<close>.
\<close>

theorem relative_import_counterexample:
  "recoil_App \<in> set corpus \<and>
   ''./store/atom/count.jsx'' \<in> set (imported recoil_App) \<and>
   resolve recoil_App ''./store/atom/count.jsx'' =
     Some [''25_Recoil'', ''vite-project'', ''src'', ''store'', ''atom'', ''count.jsx''] \<and>
   resolve context_App ''./Context.jsx'' =
     Some [''24_Context'', ''vite-project'', ''src'', ''Context.jsx''] \<and>
   \<not> leaf recoil_App \<and> \<not> leaf context_App \<and> \<not> list_all leaf corpus"
  by (simp add: corpus_def recoil_App_def context_App_def leaf_def repository_import_def
      resolve_def relative_def dirname_def segments_paths segments_specifiers)

end
